theory Spec2Isabelle
  imports Complex_Main
begin

section \<open>JavaScript strings and the string helpers the services use\<close>

text \<open>
  A JavaScript string is a sequence of UTF-16 code units. The model uses \<^typ>\<open>string\<close>, whose
  characters are read as the code units below 256 (ASCII and Latin-1). Numbers are modelled
  as exact reals (for scores) or integers (for template values); the rounding of IEEE doubles
  is not modelled.
\<close>

definition is_space :: "char \<Rightarrow> bool" where
  \<comment> \<open>the regular-expression class \<open>\s\<close> and the characters \<open>trim\<close> strips, below 256\<close>
  "is_space c = ((of_char c :: nat) \<in> {9, 10, 11, 12, 13, 32, 160})"

definition is_word_char :: "char \<Rightarrow> bool" where
  \<comment> \<open>the class \<open>\w\<close>\<close>
  "is_word_char c =
     (c \<in> set ''abcdefghijklmnopqrstuvwxyzABCDEFGHIJKLMNOPQRSTUVWXYZ0123456789_'')"

definition is_lower_letter :: "char \<Rightarrow> bool" where
  \<comment> \<open>the class \<open>[a-z]\<close>\<close>
  "is_lower_letter c = (c \<in> set ''abcdefghijklmnopqrstuvwxyz'')"

definition is_vowel :: "char \<Rightarrow> bool" where
  \<comment> \<open>the class \<open>[aeiouy]\<close>\<close>
  "is_vowel c = (c \<in> set ''aeiouy'')"

definition is_sentence_end :: "char \<Rightarrow> bool" where
  \<comment> \<open>the class \<open>[.!?]\<close>\<close>
  "is_sentence_end c = (c \<in> set ''.!?'')"

definition lower_char :: "char \<Rightarrow> char" where
  \<comment> \<open>\<open>toLowerCase\<close> on one code unit: A-Z, and the Latin-1 capitals except the times sign\<close>
  "lower_char c =
     (let n = (of_char c :: nat)
      in if (65 \<le> n \<and> n \<le> 90) \<or> (192 \<le> n \<and> n \<le> 222 \<and> n \<noteq> 215)
         then char_of (n + 32) else c)"

definition toLowerCase :: "string \<Rightarrow> string" where
  "toLowerCase s = map lower_char s"

definition trim :: "string \<Rightarrow> string" where
  "trim s = rev (dropWhile is_space (rev (dropWhile is_space s)))"

definition starts_with :: "string \<Rightarrow> string \<Rightarrow> bool" where
  "starts_with s p = (take (length p) s = p)"

fun includes_str :: "string \<Rightarrow> string \<Rightarrow> bool" where
  \<comment> \<open>\<open>s.includes(p)\<close>: \<open>p\<close> occurs in \<open>s\<close> as a contiguous substring\<close>
  "includes_str [] p = (p = [])"
| "includes_str (c # cs) p = (starts_with (c # cs) p \<or> includes_str cs p)"

fun split_runs :: "(char \<Rightarrow> bool) \<Rightarrow> string \<Rightarrow> string list" where
  \<comment> \<open>\<open>s.split(/[class]+/)\<close>: the pieces between the maximal runs of separator characters\<close>
  "split_runs P [] = [[]]"
| "split_runs P (c # cs) =
     (if P c then (if cs \<noteq> [] \<and> P (hd cs) then split_runs P cs else [] # split_runs P cs)
      else (case split_runs P cs of [] \<Rightarrow> [[c]] | p # ps \<Rightarrow> (c # p) # ps))"

function match_runs :: "(char \<Rightarrow> bool) \<Rightarrow> string \<Rightarrow> string list" where
  \<comment> \<open>\<open>s.match(/[class]+/g) || []\<close>: the maximal runs of characters of the class\<close>
  "match_runs P [] = []"
| "match_runs P (c # cs) =
     (if P c then takeWhile P (c # cs) # match_runs P (dropWhile P cs) else match_runs P cs)"
  by pat_completeness auto
termination
  by (relation "measure (\<lambda>(P, s). length s)") (auto simp: length_dropWhile_le le_imp_less_Suc)

section \<open>Quality scoring (aiService.ts)\<close>

record PersonaData =
  persona_id :: string
  tone :: "string option"
  target_audience :: "string option"
  key_themes :: "string list option"

record ContentQualityMetrics =
  score :: real
  readability :: real
  engagement_potential :: real
  brand_consistency :: real
  issues :: "string list"
  suggestions :: "string list"

datatype js_error = TypeError

definition word_syllables :: "string \<Rightarrow> nat" where
  \<comment> \<open>the body of the loop of \<open>countSyllables\<close> for one word\<close>
  "word_syllables word =
     (let groups = length (match_runs is_vowel word);
          syllables = (if groups = 0 then 1 else groups);
          syllables' = (if word \<noteq> [] \<and> last word = CHR ''e'' \<and> syllables > 1
                        then syllables - 1 else syllables)
      in max 1 syllables')"

definition countSyllables :: "string \<Rightarrow> nat" where
  "countSyllables text = sum_list (map word_syllables (match_runs is_lower_letter (toLowerCase text)))"

definition count_sentences :: "string \<Rightarrow> nat" where
  "count_sentences content =
     length (filter (\<lambda>s. length (trim s) > 0) (split_runs is_sentence_end content))"

definition count_words :: "string \<Rightarrow> nat" where
  "count_words content = length (filter (\<lambda>w. length w > 0) (split_runs is_space content))"

definition calculateReadabilityScore :: "string \<Rightarrow> real" where
  "calculateReadabilityScore content =
     (let sentences = count_sentences content;
          words = count_words content;
          syllables = countSyllables content
      in if sentences = 0 \<or> words = 0 then 0.5
         else let avgSentenceLength = real words / real sentences;
                  avgSyllablesPerWord = real syllables / real words;
                  fleschScore = 206.835 - (1.015 * avgSentenceLength) - (84.6 * avgSyllablesPerWord)
              in max 0 (min 1 (fleschScore / 100)))"

definition word_at :: "string \<Rightarrow> string \<Rightarrow> bool" where
  \<comment> \<open>the lower-case word \<open>w\<close> matches at the start of \<open>s\<close>, ignoring case, and a word
      boundary follows it\<close>
  "word_at w s =
     (starts_with (toLowerCase s) w \<and>
      (case drop (length w) s of [] \<Rightarrow> True | c # _ \<Rightarrow> \<not> is_word_char c))"

fun has_word_from :: "string list \<Rightarrow> bool \<Rightarrow> string \<Rightarrow> bool" where
  \<comment> \<open>\<open>/\b(w1|w2|...)\b/i.test(s)\<close>; the flag says whether the previous character is a word
      character\<close>
  "has_word_from ws prev [] = False"
| "has_word_from ws prev (c # cs) =
     ((\<not> prev \<and> list_ex (\<lambda>w. word_at w (c # cs)) ws) \<or> has_word_from ws (is_word_char c) cs)"

definition has_word :: "string list \<Rightarrow> string \<Rightarrow> bool" where
  "has_word ws s = has_word_from ws False s"

fun has_tagged :: "char \<Rightarrow> string \<Rightarrow> bool" where
  \<comment> \<open>\<open>/@\w+/.test(s)\<close> and \<open>/#\w+/.test(s)\<close>: the tag character followed by a word character\<close>
  "has_tagged t (a # b # cs) = ((a = t \<and> is_word_char b) \<or> has_tagged t (b # cs))"
| "has_tagged t _ = False"

definition engagementIndicators :: "(string \<Rightarrow> bool) list" where
  "engagementIndicators =
     [\<lambda>s. list_ex (\<lambda>c. c \<in> set ''!?'') s,
      has_word [''you'', ''your'', ''yours''],
      has_word [''amazing'', ''incredible'', ''excited'', ''love'', ''awesome'', ''fantastic''],
      has_word [''new'', ''fresh'', ''latest'', ''upcoming'', ''soon''],
      has_tagged (CHR ''@''),
      has_tagged (CHR ''#'')]"

definition calculateEngagementScore :: "string \<Rightarrow> real" where
  "calculateEngagementScore content =
     (let score0 = foldl (\<lambda>sc pattern. if pattern content then sc + 0.1 else sc) 0.5
                     engagementIndicators;
          idealLength = 280;
          lengthRatio = real (length content) / idealLength;
          score1 = (if lengthRatio > 0.3 \<and> lengthRatio < 1.5 then score0 + 0.1 else score0)
      in min 1 score1)"

definition object_prototype_keys :: "string list" where
  \<comment> \<open>the property names every object literal inherits; indexing \<open>toneWords\<close> with one of
      them yields a function or object, not a word list\<close>
  "object_prototype_keys =
     [''constructor'', ''__proto__'', ''hasOwnProperty'', ''isPrototypeOf'',
      ''propertyIsEnumerable'', ''toLocaleString'', ''toString'', ''valueOf'',
      ''__defineGetter__'', ''__defineSetter__'', ''__lookupGetter__'', ''__lookupSetter__'']"

definition toneWords :: "string \<Rightarrow> js_error + string list" where
  \<comment> \<open>\<open>toneWords[personaTone] || []\<close>, with the \<open>TypeError\<close> that \<open>.filter\<close> raises on an
      inherited property\<close>
  "toneWords t =
     (if t = ''casual'' then Inr [''hey'', ''guys'', ''awesome'', ''cool'', ''love'']
      else if t = ''professional'' then Inr [''pleased'', ''excited'', ''announce'', ''share'', ''grateful'']
      else if t = ''edgy'' then Inr [''raw'', ''real'', ''bold'', ''fierce'', ''unapologetic'']
      else if t = ''friendly'' then Inr [''friends'', ''family'', ''together'', ''community'', ''support'']
      else if t \<in> set object_prototype_keys then Inl TypeError
      else Inr [])"

definition theme_bonus :: "string \<Rightarrow> PersonaData \<Rightarrow> real" where
  \<comment> \<open>the first block of \<open>calculateBrandConsistencyScore\<close>\<close>
  "theme_bonus content persona =
     (case key_themes persona of
        None \<Rightarrow> 0
      | Some themes \<Rightarrow>
          (let contentLower = toLowerCase content;
               themeMatches = length (filter (\<lambda>theme. includes_str contentLower (toLowerCase theme)) themes)
           in if themeMatches > 0 then (real themeMatches / real (length themes)) * 0.3 else 0))"

definition persona_tone :: "PersonaData \<Rightarrow> string" where
  \<comment> \<open>\<open>persona.tone?.toLowerCase() || 'casual'\<close>\<close>
  "persona_tone persona =
     (case tone persona of None \<Rightarrow> ''casual''
      | Some t \<Rightarrow> (if toLowerCase t = [] then ''casual'' else toLowerCase t))"

definition tone_bonus :: "string \<Rightarrow> string list \<Rightarrow> real" where
  \<comment> \<open>the second block of \<open>calculateBrandConsistencyScore\<close>\<close>
  "tone_bonus content relevantWords =
     (let contentLower = toLowerCase content;
          toneMatches = length (filter (\<lambda>word. includes_str contentLower word) relevantWords)
      in if toneMatches > 0 then min 0.2 (real toneMatches * 0.05) else 0)"

definition calculateBrandConsistencyScore :: "string \<Rightarrow> PersonaData \<Rightarrow> js_error + real" where
  "calculateBrandConsistencyScore content persona =
     (case toneWords (persona_tone persona) of
        Inl e \<Rightarrow> Inl e
      | Inr relevantWords \<Rightarrow>
          Inr (min 1 (0.5 + theme_bonus content persona + tone_bonus content relevantWords)))"

type_synonym score_cache = "string \<times> string \<rightharpoonup> ContentQualityMetrics"

definition fallback_metrics :: ContentQualityMetrics where
  "fallback_metrics =
     \<lparr>score = 0.5, readability = 0.5, engagement_potential = 0.5, brand_consistency = 0.5,
      issues = [''Unable to analyze content quality''],
      suggestions = [''Manual review recommended'']\<rparr>"

definition build_metrics :: "real \<Rightarrow> real \<Rightarrow> real \<Rightarrow> ContentQualityMetrics" where
  \<comment> \<open>the overall score and the threshold rules of \<open>scoreContentQuality\<close>\<close>
  "build_metrics r e b =
     \<lparr>score = r * 0.3 + e * 0.4 + b * 0.3,
      readability = r, engagement_potential = e, brand_consistency = b,
      issues =
        (if r < 0.6 then [''Content may be too complex or difficult to read''] else []) @
        (if e < 0.6 then [''Content may not be engaging enough''] else []) @
        (if b < 0.6 then [''Content may not align well with artist persona''] else []),
      suggestions =
        (if r < 0.6 then [''Simplify language and sentence structure''] else []) @
        (if e < 0.6 then [''Add more emotional language or call-to-action''] else []) @
        (if b < 0.6 then [''Review tone and themes to better match artist brand''] else [])\<rparr>"

definition scoreContentQuality ::
  "score_cache \<Rightarrow> string \<Rightarrow> PersonaData \<Rightarrow> ContentQualityMetrics \<times> score_cache" where
  \<comment> \<open>The cache is keyed by the MD5 hash of \<open>{content, persona_id}\<close>; the model keys it by the
      pair itself. A cached entry is returned as it is; an exception inside the \<open>try\<close> block
      yields the fallback metrics, which are not cached.\<close>
  "scoreContentQuality cache content persona =
     (case cache (content, persona_id persona) of
        Some cached \<Rightarrow> (cached, cache)
      | None \<Rightarrow>
          (case calculateBrandConsistencyScore content persona of
             Inl e \<Rightarrow> (fallback_metrics, cache)
           | Inr b \<Rightarrow>
               (let metrics = build_metrics (calculateReadabilityScore content)
                                (calculateEngagementScore content) b
                in (metrics, cache((content, persona_id persona) \<mapsto> metrics)))))"

inductive reachable_cache :: "score_cache \<Rightarrow> bool" where
  \<comment> \<open>the states of the score cache: empty at start, written only by \<open>scoreContentQuality\<close>,
      entries dropped by expiry or \<open>clearCache\<close>\<close>
  cache_init: "reachable_cache Map.empty"
| cache_scored: "reachable_cache c \<Longrightarrow> reachable_cache (snd (scoreContentQuality c content persona))"
| cache_dropped: "reachable_cache c \<Longrightarrow> reachable_cache (c |` keep)"

definition metrics_wf :: "ContentQualityMetrics \<Rightarrow> bool" where
  "metrics_wf m =
     (score m = 0.3 * readability m + 0.4 * engagement_potential m + 0.3 * brand_consistency m \<and>
      0 \<le> readability m \<and> readability m \<le> 1 \<and>
      0.5 \<le> engagement_potential m \<and> engagement_potential m \<le> 1 \<and>
      0.5 \<le> brand_consistency m \<and> brand_consistency m \<le> 1)"

section \<open>Templates (templateService.ts)\<close>

text \<open>
  The values of a template's variables arrive as JSON. The model covers the scalar JSON
  values; a property that is absent reads as \<open>undefined\<close>, modelled by \<^const>\<open>None\<close>.
  An object is an association list in property order (keys distinct, none of them an
  inherited property name or an array index).
\<close>

datatype js_value = JString string | JNumber int | JBool bool | JNull

fun falsy :: "js_value \<Rightarrow> bool" where
  "falsy (JString s) = (s = [])"
| "falsy (JNumber n) = (n = 0)"
| "falsy (JBool b) = (\<not> b)"
| "falsy JNull = True"

fun js_not :: "js_value option \<Rightarrow> bool" where
  \<comment> \<open>\<open>!x\<close> for the result of a property read\<close>
  "js_not None = True"
| "js_not (Some v) = falsy v"

definition digit_char :: "nat \<Rightarrow> char" where
  "digit_char d = ''0123456789'' ! d"

fun string_of_nat :: "nat \<Rightarrow> string" where
  "string_of_nat n =
     (if n < 10 then [digit_char n] else string_of_nat (n div 10) @ [digit_char (n mod 10)])"

fun js_String :: "js_value \<Rightarrow> string" where
  \<comment> \<open>\<open>String(value)\<close>\<close>
  "js_String (JString s) = s"
| "js_String (JNumber n) = (if n < 0 then CHR ''-'' # string_of_nat (nat (- n)) else string_of_nat (nat n))"
| "js_String (JBool b) = (if b then ''true'' else ''false'')"
| "js_String JNull = ''null''"

type_synonym js_object = "(string \<times> js_value) list"

fun set_property :: "string \<Rightarrow> js_value \<Rightarrow> js_object \<Rightarrow> js_object" where
  \<comment> \<open>\<open>obj[k] = v\<close>: an existing property keeps its place, a new one goes last\<close>
  "set_property k v [] = [(k, v)]"
| "set_property k v ((k', v') # ps) =
     (if k' = k then (k, v) # ps else (k', v') # set_property k v ps)"

fun join :: "string \<Rightarrow> string list \<Rightarrow> string" where
  "join sep [] = []"
| "join sep [x] = x"
| "join sep (x # y # ys) = x @ sep @ join sep (y # ys)"

record TemplateVariable =
  v_name :: string
  v_type :: string
  required :: bool
  default_value :: "js_value option"
  options :: "string list option"
  description :: "string option"

record TemplateFields =
  template_name :: string
  template_type :: string
  template_content :: string

record CreateTemplateRequest = TemplateFields +
  variables :: "TemplateVariable list"
  request_description :: "string option"

record ContentTemplate = TemplateFields +
  row_id :: string
  stored_variables :: "TemplateVariable list option"

record ProcessedTemplate =
  template_id :: string
  processed_content :: string
  variables_used :: js_object

datatype template_error = TemplateNotFound | MissingRequiredVariables "string list"

fun error_message :: "template_error \<Rightarrow> string" where
  "error_message TemplateNotFound = ''Template not found''"
| "error_message (MissingRequiredVariables names) =
     ''Missing required variables: '' @ join '', '' names"

subsection \<open>Regular expressions and replacements of the template code\<close>

definition placeholder_at :: "string \<Rightarrow> (string \<times> string) option" where
  \<comment> \<open>a match of \<open>/{{([^}]+)}}/\<close> at the start of the string: the matched text and what
      follows it\<close>
  "placeholder_at s =
     (if starts_with s ''{{''
      then (let body = takeWhile (\<lambda>c. c \<noteq> CHR ''}'') (drop 2 s);
                after = dropWhile (\<lambda>c. c \<noteq> CHR ''}'') (drop 2 s)
            in if body \<noteq> [] \<and> starts_with after ''}}''
               then Some (''{{'' @ body @ ''}}'', drop 2 after) else None)
      else None)"

lemma placeholder_at_shorter:
  "placeholder_at s = Some (m, rest) \<Longrightarrow> length rest < length s"
proof -
  assume a: "placeholder_at s = Some (m, rest)"
  have "length (dropWhile (\<lambda>c. c \<noteq> CHR ''}'') (drop 2 s)) \<le> length (drop 2 s)"
    by (rule length_dropWhile_le)
  moreover from a have "starts_with s ''{{''"
    by (simp add: placeholder_at_def split: if_splits)
  then have "2 \<le> length s"
    by (cases s; cases "tl s") (auto simp: starts_with_def)
  moreover from a have "rest = drop 2 (dropWhile (\<lambda>c. c \<noteq> CHR ''}'') (drop 2 s))"
    by (auto simp: placeholder_at_def Let_def split: if_splits)
  ultimately show ?thesis by simp
qed

function match_placeholders :: "string \<Rightarrow> string list" where
  \<comment> \<open>\<open>s.match(/{{([^}]+)}}/g) || []\<close>: the matches from left to right, not overlapping\<close>
  "match_placeholders [] = []"
| "match_placeholders (c # cs) =
     (case placeholder_at (c # cs) of
        Some (m, rest) \<Rightarrow> m # match_placeholders rest
      | None \<Rightarrow> match_placeholders cs)"
  by pat_completeness auto
termination
  by (relation "measure length") (auto dest: placeholder_at_shorter)

function replace_all :: "string \<Rightarrow> string \<Rightarrow> string \<Rightarrow> string" where
  \<comment> \<open>\<open>s.replace(new RegExp(pat, 'g'), rep)\<close> for a pattern that matches only itself and a
      replacement without \<open>$\<close>\<close>
  "replace_all pat rep [] = []"
| "replace_all pat rep (c # cs) =
     (if pat \<noteq> [] \<and> starts_with (c # cs) pat
      then rep @ replace_all pat rep (drop (length pat) (c # cs))
      else c # replace_all pat rep cs)"
  by pat_completeness auto
termination
  by (relation "measure (\<lambda>(pat, rep, s). length s)") auto

fun replace_first :: "string \<Rightarrow> string \<Rightarrow> string \<Rightarrow> string" where
  \<comment> \<open>\<open>s.replace(pat, rep)\<close> with a string pattern: the first occurrence only\<close>
  "replace_first pat rep [] = (if pat = [] then rep else [])"
| "replace_first pat rep (c # cs) =
     (if starts_with (c # cs) pat then rep @ drop (length pat) (c # cs)
      else c # replace_first pat rep cs)"

function collapse_whitespace :: "string \<Rightarrow> string" where
  \<comment> \<open>\<open>s.replace(/\s+/g, ' ')\<close>\<close>
  "collapse_whitespace [] = []"
| "collapse_whitespace (c # cs) =
     (if is_space c then CHR '' '' # collapse_whitespace (dropWhile is_space cs)
      else c # collapse_whitespace cs)"
  by pat_completeness auto
termination
  by (relation "measure length") (auto simp: length_dropWhile_le le_imp_less_Suc)

definition after_last_newline :: "string \<Rightarrow> string" where
  "after_last_newline run = rev (takeWhile (\<lambda>c. c \<noteq> CHR 0x0A) (rev run))"

lemma after_last_newline_le: "length (after_last_newline run) \<le> length run"
proof -
  have "length (takeWhile (\<lambda>c. c \<noteq> CHR 0x0A) (rev run)) \<le> length (rev run)"
    by (rule length_takeWhile_le)
  then show ?thesis by (simp add: after_last_newline_def)
qed

function paragraph_breaks :: "string \<Rightarrow> string" where
  \<comment> \<open>\<open>s.replace(/\n\s*\n/g, '\n\n')\<close>: a newline, the following whitespace up to its last
      newline, replaced by two newlines\<close>
  "paragraph_breaks [] = []"
| "paragraph_breaks (c # cs) =
     (if c = CHR 0x0A \<and> CHR 0x0A \<in> set (takeWhile is_space cs)
      then CHR 0x0A # CHR 0x0A #
           paragraph_breaks (after_last_newline (takeWhile is_space cs) @ dropWhile is_space cs)
      else c # paragraph_breaks cs)"
  by pat_completeness auto
termination
proof (relation "measure length")
  show "wf (measure length)" by simp
next
  fix c cs
  assume "c = CHR 0x0A \<and> CHR 0x0A \<in> set (takeWhile is_space cs)"
  have "length (after_last_newline (takeWhile is_space cs)) \<le> length (takeWhile is_space cs)"
    by (rule after_last_newline_le)
  moreover have "length (takeWhile is_space cs) + length (dropWhile is_space cs) = length cs"
    by (metis length_append takeWhile_dropWhile_id)
  ultimately show "(after_last_newline (takeWhile is_space cs) @ dropWhile is_space cs, c # cs)
                     \<in> measure length"
    by simp
next
  fix c cs
  show "(cs, c # cs) \<in> measure length" by simp
qed

subsection \<open>processTemplate\<close>

definition missingRequired :: "TemplateVariable list \<Rightarrow> js_object \<Rightarrow> string list" where
  "missingRequired templateVariables vars =
     map v_name (filter (\<lambda>v. required v \<and> js_not (map_of vars (v_name v))) templateVariables)"

definition apply_default :: "js_object \<Rightarrow> TemplateVariable \<Rightarrow> js_object" where
  \<comment> \<open>the body of the \<open>forEach\<close> that fills in default values\<close>
  "apply_default processedVariables templateVar =
     (case default_value templateVar of
        Some d \<Rightarrow> (if js_not (map_of processedVariables (v_name templateVar))
                   then set_property (v_name templateVar) d processedVariables
                   else processedVariables)
      | None \<Rightarrow> processedVariables)"

definition substitute :: "string \<Rightarrow> js_object \<Rightarrow> string" where
  \<comment> \<open>one global replacement of \<open>{{key}}\<close> per entry, in property order\<close>
  "substitute content processedVariables =
     foldl (\<lambda>processedContent (key, value).
              replace_all (''{{'' @ key @ ''}}'') (js_String value) processedContent)
       content processedVariables"

definition remove_unreplaced :: "string \<Rightarrow> string" where
  \<comment> \<open>each remaining placeholder match is removed once\<close>
  "remove_unreplaced content =
     foldl (\<lambda>processedContent m. replace_first m [] processedContent)
       content (match_placeholders content)"

definition clean_up :: "string \<Rightarrow> string" where
  \<comment> \<open>\<open>.replace(/\s+/g, ' ').replace(/\n\s*\n/g, '\n\n').trim()\<close>\<close>
  "clean_up content = trim (paragraph_breaks (collapse_whitespace content))"

definition declared_variables :: "ContentTemplate \<Rightarrow> TemplateVariable list" where
  \<comment> \<open>\<open>template.variables?.variables || []\<close>\<close>
  "declared_variables template = (case stored_variables template of None \<Rightarrow> [] | Some vs \<Rightarrow> vs)"

definition processTemplate ::
  "(string \<Rightarrow> ContentTemplate option) \<Rightarrow> string \<Rightarrow> js_object
     \<Rightarrow> template_error + ProcessedTemplate" where
  \<comment> \<open>the first argument is \<open>getTemplateById\<close>: the active template rows of the database\<close>
  "processTemplate getTemplateById templateId vars =
     (case getTemplateById templateId of
        None \<Rightarrow> Inl TemplateNotFound
      | Some template \<Rightarrow>
          (let templateVariables = declared_variables template;
               missing = missingRequired templateVariables vars
           in if length missing > 0 then Inl (MissingRequiredVariables missing)
              else (let processedVariables = foldl apply_default vars templateVariables;
                        processedContent = substitute (template_content template) processedVariables
                    in Inr \<lparr>template_id = templateId,
                            processed_content = clean_up (remove_unreplaced processedContent),
                            variables_used = processedVariables\<rparr>)))"

subsection \<open>validateTemplate and the handler of POST /templates\<close>











subsection \<open>Example data\<close>

definition behind_the_scenes :: ContentTemplate where
  \<comment> \<open>the default template 'Behind the Scenes' (its two emoji left out), stored as row t1\<close>
  "behind_the_scenes =
     \<lparr>template_name = ''Behind the Scenes'',
      template_type = ''story'',
      template_content =
        ''Behind the scenes: {{story_hook}}\<newline>\<newline>{{main_content}}\<newline>\<newline>{{reflection}}\<newline>\<newline>What's your favorite part of the creative process?\<newline>\<newline>#BehindTheScenes #{{genre}} #CreativeProcess'',
      row_id = ''t1'',
      stored_variables = Some
        [\<lparr>v_name = ''story_hook'', v_type = ''text'', required = True, default_value = None,
           options = None, description = Some ''Opening line to grab attention''\<rparr>,
         \<lparr>v_name = ''main_content'', v_type = ''text'', required = True, default_value = None,
           options = None, description = Some ''Main story content''\<rparr>,
         \<lparr>v_name = ''reflection'', v_type = ''text'', required = False, default_value = None,
           options = None, description = Some ''Personal reflection or insight''\<rparr>,
         \<lparr>v_name = ''genre'', v_type = ''text'', required = False,
           default_value = Some (JString ''Music''), options = None, description = None\<rparr>]\<rparr>"

definition example_rows :: "string \<Rightarrow> ContentTemplate option" where
  "example_rows tid = (if tid = ''t1'' then Some behind_the_scenes else None)"


section \<open>Content generation (aiService.ts) and the handler of POST /generate\<close>

text \<open>
  The rate limiter (\<open>RateLimiterMemory\<close> of the package rate-limiter-flexible) and the text
  generation backend are outside the repository. The model takes their behaviour as input:
  for the k-th call of \<open>rateLimiter.consume\<close>, whether its promise resolves or rejects, and for
  the k-th backend call, whether it fails or which text it returns. The state counts both
  kinds of calls. The cache of generation results is keyed by the MD5 hash of the request;
  the model keys it by the request. Timestamps are left out.
\<close>

record ContentGenerationParams =
  persona :: PersonaData
  template :: "ContentTemplate option"
  content_type :: string
  context_text :: "string option"
  max_length :: "nat option"
  variations :: "nat option"

record generation_params_record =
  temperature :: real
  used_max_length :: nat
  used_content_type :: string

record GeneratedContent =
  content :: string
  quality_score :: real
  variation_id :: nat
  generation_params :: generation_params_record
  model_used :: string

datatype backend_reply = BackendError | Generated "string option"

record ai_world =
  limiter_admits :: "nat \<Rightarrow> bool"
  backend_replies :: "nat \<Rightarrow> backend_reply"

record ai_state =
  content_cache :: "ContentGenerationParams \<rightharpoonup> GeneratedContent list"
  quality_cache :: score_cache
  limiter_calls :: nat
  backend_calls :: nat

datatype failure_cause = RateLimitRejected | BackendFailed

datatype generation_error = AIContentGenerationFailed failure_cause

definition withRateLimit ::
  "ai_world \<Rightarrow> (ai_state \<Rightarrow> (failure_cause + 'a) \<times> ai_state) \<Rightarrow> ai_state
     \<Rightarrow> (failure_cause + 'a) \<times> ai_state" where
  \<comment> \<open>\<open>await rateLimiter.consume('ai_request'); return operation();\<close>: a rejected
      \<open>consume\<close> propagates and the operation is not run\<close>
  "withRateLimit w operation st =
     (let st' = st\<lparr>limiter_calls := limiter_calls st + 1\<rparr>
      in if limiter_admits w (limiter_calls st) then operation st'
         else (Inl RateLimitRejected, st'))"

definition reply_text :: "string option \<Rightarrow> string" where
  \<comment> \<open>\<open>response.generated_text?.trim() || ''\<close>\<close>
  "reply_text generated_text = (case generated_text of None \<Rightarrow> [] | Some t \<Rightarrow> trim t)"

definition textGeneration :: "ai_world \<Rightarrow> ai_state \<Rightarrow> (failure_cause + string) \<times> ai_state" where
  \<comment> \<open>the operation passed to \<open>withRateLimit\<close>: one backend call\<close>
  "textGeneration w st =
     (let st' = st\<lparr>backend_calls := backend_calls st + 1\<rparr>
      in case backend_replies w (backend_calls st) of
           BackendError \<Rightarrow> (Inl BackendFailed, st')
         | Generated generated_text \<Rightarrow> (Inr (reply_text generated_text), st'))"

definition used_length :: "ContentGenerationParams \<Rightarrow> nat" where
  \<comment> \<open>\<open>params.max_length || 150\<close>\<close>
  "used_length params = (case max_length params of None \<Rightarrow> 150 | Some n \<Rightarrow> if n = 0 then 150 else n)"

definition used_variations :: "ContentGenerationParams \<Rightarrow> nat" where
  \<comment> \<open>\<open>params.variations || 3\<close>\<close>
  "used_variations params = (case variations params of None \<Rightarrow> 3 | Some n \<Rightarrow> if n = 0 then 3 else n)"

fun generate_loop ::
  "ai_world \<Rightarrow> ContentGenerationParams \<Rightarrow> nat \<Rightarrow> nat \<Rightarrow> ai_state \<Rightarrow> GeneratedContent list
     \<Rightarrow> (failure_cause + GeneratedContent list) \<times> ai_state" where
  \<comment> \<open>the \<open>for\<close> loop of \<open>generateContent\<close> at index \<open>i\<close> with \<open>n\<close> iterations left\<close>
  "generate_loop w params i 0 st results = (Inr results, st)"
| "generate_loop w params i (Suc n) st results =
     (case withRateLimit w (textGeneration w) st of
        (Inl e, st') \<Rightarrow> (Inl e, st')
      | (Inr text, st') \<Rightarrow>
          (if text \<noteq> []
           then (let (qualityScore, qc) = scoreContentQuality (quality_cache st') text (persona params)
                 in generate_loop w params (i + 1) n (st'\<lparr>quality_cache := qc\<rparr>)
                      (results @
                       [\<lparr>content = text,
                         quality_score = score qualityScore,
                         variation_id = i + 1,
                         generation_params =
                           \<lparr>temperature = 0.7 + real i * 0.1,
                            used_max_length = used_length params,
                            used_content_type = content_type params\<rparr>,
                         model_used = ''huggingface''\<rparr>]))
           else generate_loop w params (i + 1) n st' results))"

definition generateContent ::
  "ai_world \<Rightarrow> ContentGenerationParams \<Rightarrow> ai_state
     \<Rightarrow> (generation_error + GeneratedContent list) \<times> ai_state" where
  \<comment> \<open>\<open>results.sort((a, b) => b.quality_score - a.quality_score)\<close> is the stable sort by
      descending score\<close>
  "generateContent w params st =
     (case content_cache st params of
        Some cached \<Rightarrow> (Inr cached, st)
      | None \<Rightarrow>
          (case generate_loop w params 0 (used_variations params) st [] of
             (Inl e, st') \<Rightarrow> (Inl (AIContentGenerationFailed e), st')
           | (Inr results, st') \<Rightarrow>
               (let sorted_results = sort_key (\<lambda>r. - quality_score r) results
                in (Inr sorted_results,
                    st'\<lparr>content_cache := (content_cache st')(params \<mapsto> sorted_results)\<rparr>))))"

record generate_response =
  response_status :: nat
  response_text :: string
  generated_content :: "GeneratedContent list"
  content_saved :: "bool option"

definition post_generate ::
  "ai_world \<Rightarrow> ContentGenerationParams \<Rightarrow> ai_state \<Rightarrow> generate_response \<times> ai_state" where
  \<comment> \<open>the handler of POST /generate from the call of the AI service on (Hugging Face path);
      request validation, the persona lookup and the database inserts are not modelled\<close>
  "post_generate w generationParams st =
     (case generateContent w generationParams st of
        (Inl err, st') \<Rightarrow>
          (\<lparr>response_status = 502, response_text = ''AI generation service failed'',
            generated_content = [], content_saved = None\<rparr>, st')
      | (Inr generatedContent, st') \<Rightarrow>
          (if length generatedContent = 0
           then (\<lparr>response_status = 200, response_text = ''No content generated'',
                  generated_content = [], content_saved = Some False\<rparr>, st')
           else (\<lparr>response_status = 200, response_text = ''Content generated successfully'',
                  generated_content = generatedContent, content_saved = Some True\<rparr>, st')))"

definition ranked_before :: "GeneratedContent \<Rightarrow> GeneratedContent \<Rightarrow> bool" where
  \<comment> \<open>higher score first; equal scores in generation order\<close>
  "ranked_before a b =
     (quality_score a > quality_score b \<or>
      (quality_score a = quality_score b \<and> variation_id a < variation_id b))"

definition fresh_state :: ai_state where
  "fresh_state = \<lparr>content_cache = Map.empty, quality_cache = Map.empty,
                  limiter_calls = 0, backend_calls = 0\<rparr>"

definition nth_text :: "ai_world \<Rightarrow> nat \<Rightarrow> string" where
  \<comment> \<open>the text the loop sees for the k-th backend call\<close>
  "nth_text w k = (case backend_replies w k of BackendError \<Rightarrow> [] | Generated g \<Rightarrow> reply_text g)"

subsection \<open>Example data\<close>

definition example_persona :: PersonaData where
  "example_persona =
     \<lparr>persona_id = ''p1'', tone = Some ''casual'', target_audience = Some ''indie fans'',
      key_themes = Some [''love'', ''tour'']\<rparr>"

definition example_request :: ContentGenerationParams where
  "example_request =
     \<lparr>persona = example_persona, template = None, content_type = ''social_post'',
      context_text = None, max_length = None, variations = Some 3\<rparr>"

definition replies_of :: "string option list \<Rightarrow> nat \<Rightarrow> backend_reply" where
  \<comment> \<open>a backend that answers its first calls with the given texts\<close>
  "replies_of texts k = (if k < length texts then Generated (texts ! k) else Generated None)"


definition blank_reply_world :: ai_world where
  \<comment> \<open>the limiter admits every call; the second text the backend returns is one space\<close>
  "blank_reply_world =
     \<lparr>limiter_admits = (\<lambda>k. True),
      backend_replies = replies_of [Some ''Hello.'', Some '' '', Some ''New tour dates soon! #live'']\<rparr>"

section \<open>Properties of the scoring heuristic\<close>

lemma indicator_fold_lower:
  "a \<le> foldl (\<lambda>sc pattern. if pattern str then sc + 0.1 else sc) (a::real) ps"
proof (induction ps arbitrary: a)
  case Nil
  show ?case by simp
next
  case (Cons p ps)
  have "a \<le> (if p str then a + 0.1 else a)" by simp
  also have "\<dots> \<le> foldl (\<lambda>sc pattern. if pattern str then sc + 0.1 else sc)
                     (if p str then a + 0.1 else a) ps"
    by (rule Cons.IH)
  finally show ?case by simp
qed

lemma engagement_bounds:
  "0.5 \<le> calculateEngagementScore str \<and> calculateEngagementScore str \<le> 1"
proof -
  have "(0.5::real) \<le> foldl (\<lambda>sc pattern. if pattern str then sc + 0.1 else sc) 0.5
                        engagementIndicators"
    by (rule indicator_fold_lower)
  then show ?thesis
    by (simp add: calculateEngagementScore_def Let_def)
qed

lemma theme_bonus_nonneg: "0 \<le> theme_bonus str pers"
  by (simp add: theme_bonus_def Let_def split: option.splits)

lemma tone_bonus_nonneg: "0 \<le> tone_bonus str ws"
  by (simp add: tone_bonus_def Let_def)

lemma brand_bounds:
  assumes "calculateBrandConsistencyScore str pers = Inr b"
  shows "0.5 \<le> b \<and> b \<le> 1"
proof -
  from assms obtain ws where
    b: "b = min 1 (0.5 + theme_bonus str pers + tone_bonus str ws)"
    by (auto simp: calculateBrandConsistencyScore_def split: sum.splits)
  have "0 \<le> theme_bonus str pers" "0 \<le> tone_bonus str ws"
    by (rule theme_bonus_nonneg, rule tone_bonus_nonneg)
  then show ?thesis unfolding b by (simp add: min_def)
qed

lemma readability_bounds:
  "0 \<le> calculateReadabilityScore str \<and> calculateReadabilityScore str \<le> 1"
  by (simp add: calculateReadabilityScore_def Let_def)

lemma build_metrics_wf:
  assumes "0 \<le> r" "r \<le> 1" "0.5 \<le> e" "e \<le> 1" "0.5 \<le> b" "b \<le> 1"
  shows "metrics_wf (build_metrics r e b)"
  using assms by (simp add: metrics_wf_def build_metrics_def)

lemma fallback_metrics_wf: "metrics_wf fallback_metrics"
  by (simp add: metrics_wf_def fallback_metrics_def)

lemma metrics_wf_score: "metrics_wf m \<Longrightarrow> 0 \<le> score m \<and> score m \<le> 1"
  by (simp add: metrics_wf_def)

lemma fresh_metrics_wf:
  assumes "calculateBrandConsistencyScore str pers = Inr b"
  shows "metrics_wf (build_metrics (calculateReadabilityScore str)
                       (calculateEngagementScore str) b)"
  using readability_bounds [of str] engagement_bounds [of str] brand_bounds [OF assms]
  by (intro build_metrics_wf) simp_all

lemma score_step_wf:
  assumes "\<forall>m \<in> ran c. metrics_wf m"
  shows "metrics_wf (fst (scoreContentQuality c str pers)) \<and>
         (\<forall>m \<in> ran (snd (scoreContentQuality c str pers)). metrics_wf m)"
proof (cases "c (str, persona_id pers)")
  case (Some cached)
  then have "cached \<in> ran c" by (auto simp: ran_def)
  with assms Some show ?thesis by (simp add: scoreContentQuality_def)
next
  case None
  show ?thesis
  proof (cases "calculateBrandConsistencyScore str pers")
    case (Inl e)
    with None assms show ?thesis
      by (simp add: scoreContentQuality_def fallback_metrics_wf)
  next
    case (Inr b)
    let ?m = "build_metrics (calculateReadabilityScore str) (calculateEngagementScore str) b"
    have wf: "metrics_wf ?m" by (rule fresh_metrics_wf [OF Inr])
    have "ran (c((str, persona_id pers) \<mapsto> ?m)) \<subseteq> insert ?m (ran c)"
      by (auto simp: ran_def split: if_splits)
    with wf assms have "\<forall>m \<in> ran (c((str, persona_id pers) \<mapsto> ?m)). metrics_wf m"
      by auto
    with None Inr wf show ?thesis
      by (simp add: scoreContentQuality_def Let_def)
  qed
qed

lemma reachable_cache_wf: "reachable_cache c \<Longrightarrow> \<forall>m \<in> ran c. metrics_wf m"
proof (induction rule: reachable_cache.induct)
  case cache_init
  show ?case by simp
next
  case (cache_scored c str pers)
  then show ?case using score_step_wf by blast
next
  case (cache_dropped c keep)
  have "ran (c |` keep) \<subseteq> ran c"
    by (auto simp: ran_def restrict_map_def split: if_splits)
  with cache_dropped.IH show ?case by blast
qed

text \<open>
  Claim C1. For every text and persona, and every state the score cache can be in,
  \<open>scoreContentQuality\<close> returns metrics whose overall score is 0.3 times the readability
  sub-score plus 0.4 times the engagement sub-score plus 0.3 times the brand-consistency
  sub-score, and the overall score lies between 0 and 1. When the result is computed (no
  cached entry, no exception), the three sub-scores are the values of
  \<open>calculateReadabilityScore\<close>, \<open>calculateEngagementScore\<close> and
  \<open>calculateBrandConsistencyScore\<close> for this text and persona.
\<close>

theorem score_is_weighted_sum_in_unit_interval:
  assumes "reachable_cache c"
  shows "score (fst (scoreContentQuality c str pers)) =
           0.3 * readability (fst (scoreContentQuality c str pers))
           + 0.4 * engagement_potential (fst (scoreContentQuality c str pers))
           + 0.3 * brand_consistency (fst (scoreContentQuality c str pers)) \<and>
         0 \<le> score (fst (scoreContentQuality c str pers)) \<and>
         score (fst (scoreContentQuality c str pers)) \<le> 1 \<and>
         (c (str, persona_id pers) = None \<longrightarrow>
          calculateBrandConsistencyScore str pers = Inr b \<longrightarrow>
            readability (fst (scoreContentQuality c str pers))
              = calculateReadabilityScore str \<and>
            engagement_potential (fst (scoreContentQuality c str pers))
              = calculateEngagementScore str \<and>
            brand_consistency (fst (scoreContentQuality c str pers)) = b)"
proof -
  have "\<forall>m \<in> ran c. metrics_wf m" by (rule reachable_cache_wf [OF assms])
  then have wf: "metrics_wf (fst (scoreContentQuality c str pers))"
    using score_step_wf by blast
  have fresh: "c (str, persona_id pers) = None \<longrightarrow>
          calculateBrandConsistencyScore str pers = Inr b \<longrightarrow>
            readability (fst (scoreContentQuality c str pers))
              = calculateReadabilityScore str \<and>
            engagement_potential (fst (scoreContentQuality c str pers))
              = calculateEngagementScore str \<and>
            brand_consistency (fst (scoreContentQuality c str pers)) = b"
    by (simp add: scoreContentQuality_def build_metrics_def Let_def)
  from wf have "score (fst (scoreContentQuality c str pers)) =
           0.3 * readability (fst (scoreContentQuality c str pers))
           + 0.4 * engagement_potential (fst (scoreContentQuality c str pers))
           + 0.3 * brand_consistency (fst (scoreContentQuality c str pers))"
    by (simp add: metrics_wf_def)
  with metrics_wf_score [OF wf] fresh show ?thesis by blast
qed

theorem score_is_weighted_sum_in_unit_interval_witness:
  "reachable_cache Map.empty \<and>
   (Map.empty :: score_cache) (''I love you!'', ''p1'') = None \<and>
   calculateBrandConsistencyScore ''I love you!''
     \<lparr>persona_id = ''p1'', tone = Some ''casual'', target_audience = None, key_themes = Some [''love'']\<rparr> = Inr (85 / 100) \<and>
   score (fst (scoreContentQuality Map.empty ''I love you!''
          \<lparr>persona_id = ''p1'', tone = Some ''casual'', target_audience = None, key_themes = Some [''love'']\<rparr>)) =
     0.3 * readability (fst (scoreContentQuality Map.empty ''I love you!''
          \<lparr>persona_id = ''p1'', tone = Some ''casual'', target_audience = None, key_themes = Some [''love'']\<rparr>))
     + 0.4 * engagement_potential (fst (scoreContentQuality Map.empty ''I love you!''
          \<lparr>persona_id = ''p1'', tone = Some ''casual'', target_audience = None, key_themes = Some [''love'']\<rparr>))
     + 0.3 * brand_consistency (fst (scoreContentQuality Map.empty ''I love you!''
          \<lparr>persona_id = ''p1'', tone = Some ''casual'', target_audience = None, key_themes = Some [''love'']\<rparr>)) \<and>
   0 \<le> score (fst (scoreContentQuality Map.empty ''I love you!''
          \<lparr>persona_id = ''p1'', tone = Some ''casual'', target_audience = None, key_themes = Some [''love'']\<rparr>)) \<and>
   score (fst (scoreContentQuality Map.empty ''I love you!''
          \<lparr>persona_id = ''p1'', tone = Some ''casual'', target_audience = None, key_themes = Some [''love'']\<rparr>)) \<le> 1 \<and>
   brand_consistency (fst (scoreContentQuality Map.empty ''I love you!''
          \<lparr>persona_id = ''p1'', tone = Some ''casual'', target_audience = None, key_themes = Some [''love'']\<rparr>)) = 85 / 100"
proof -
  have r: "reachable_cache Map.empty" by (rule cache_init)
  have b: "calculateBrandConsistencyScore ''I love you!''
             \<lparr>persona_id = ''p1'', tone = Some ''casual'', target_audience = None, key_themes = Some [''love'']\<rparr> = Inr (85 / 100)"
    by code_simp
  have n: "(Map.empty :: score_cache) (''I love you!'', persona_id
             \<lparr>persona_id = ''p1'', tone = Some ''casual'', target_audience = None, key_themes = Some [''love'']\<rparr>) = None"
    by simp
  have n': "(Map.empty :: score_cache) (''I love you!'', ''p1'') = None" by simp
  from score_is_weighted_sum_in_unit_interval [OF r, of "''I love you!''"
         "\<lparr>persona_id = ''p1'', tone = Some ''casual'', target_audience = None, key_themes = Some [''love'']\<rparr>" "85 / 100"] b r n n'
  show ?thesis by blast
qed

lemma readability_can_be_low: "calculateReadabilityScore ''Internationalization.'' = 0"
  by code_simp

text \<open>
  Claim C9. For every text and persona, the engagement-potential sub-score lies between the
  base value 0.5 and 1, and so does the brand-consistency sub-score whenever
  \<open>calculateBrandConsistencyScore\<close> returns one: bonuses only add to the base. The same bounds
  hold for the two sub-scores in the metrics \<open>scoreContentQuality\<close> returns, whatever the state
  of the cache. The readability sub-score is the only one that can be below 0.5 (some text
  has a readability below 0.5).
\<close>

theorem engagement_and_brand_at_least_base:
  "0.5 \<le> calculateEngagementScore str \<and> calculateEngagementScore str \<le> 1 \<and>
   (calculateBrandConsistencyScore str pers = Inr b \<longrightarrow> 0.5 \<le> b \<and> b \<le> 1) \<and>
   (reachable_cache c \<longrightarrow>
      0.5 \<le> engagement_potential (fst (scoreContentQuality c str pers)) \<and>
      engagement_potential (fst (scoreContentQuality c str pers)) \<le> 1 \<and>
      0.5 \<le> brand_consistency (fst (scoreContentQuality c str pers)) \<and>
      brand_consistency (fst (scoreContentQuality c str pers)) \<le> 1) \<and>
   (\<exists>low. calculateReadabilityScore low < 0.5)"
proof -
  have "calculateReadabilityScore ''Internationalization.'' < 0.5"
    by (simp add: readability_can_be_low)
  then have low: "\<exists>low. calculateReadabilityScore low < 0.5" by blast
  have returned: "reachable_cache c \<longrightarrow>
      0.5 \<le> engagement_potential (fst (scoreContentQuality c str pers)) \<and>
      engagement_potential (fst (scoreContentQuality c str pers)) \<le> 1 \<and>
      0.5 \<le> brand_consistency (fst (scoreContentQuality c str pers)) \<and>
      brand_consistency (fst (scoreContentQuality c str pers)) \<le> 1"
  proof
    assume "reachable_cache c"
    then have "\<forall>m \<in> ran c. metrics_wf m" by (rule reachable_cache_wf)
    then have "metrics_wf (fst (scoreContentQuality c str pers))"
      using score_step_wf by blast
    then show "0.5 \<le> engagement_potential (fst (scoreContentQuality c str pers)) \<and>
      engagement_potential (fst (scoreContentQuality c str pers)) \<le> 1 \<and>
      0.5 \<le> brand_consistency (fst (scoreContentQuality c str pers)) \<and>
      brand_consistency (fst (scoreContentQuality c str pers)) \<le> 1"
      by (simp add: metrics_wf_def)
  qed
  from low returned engagement_bounds [of str] brand_bounds [of str pers b]
  show ?thesis by blast
qed

theorem engagement_and_brand_at_least_base_witness:
  "calculateBrandConsistencyScore ''I love you!''
     \<lparr>persona_id = ''p1'', tone = Some ''professional'', target_audience = None, key_themes = Some [''tour'']\<rparr> = Inr (1 / 2) \<and>
   reachable_cache Map.empty \<and>
   0.5 \<le> calculateEngagementScore ''I love you!'' \<and>
   calculateEngagementScore ''I love you!'' \<le> 1 \<and>
   (0.5::real) \<le> 1 / 2 \<and> (1 / 2 :: real) \<le> 1 \<and>
   0.5 \<le> brand_consistency (fst (scoreContentQuality Map.empty ''I love you!''
     \<lparr>persona_id = ''p1'', tone = Some ''professional'', target_audience = None, key_themes = Some [''tour'']\<rparr>)) \<and>
   brand_consistency (fst (scoreContentQuality Map.empty ''I love you!''
     \<lparr>persona_id = ''p1'', tone = Some ''professional'', target_audience = None, key_themes = Some [''tour'']\<rparr>)) \<le> 1"
proof -
  have b: "calculateBrandConsistencyScore ''I love you!''
             \<lparr>persona_id = ''p1'', tone = Some ''professional'', target_audience = None, key_themes = Some [''tour'']\<rparr> = Inr (1 / 2)"
    by code_simp
  have r: "reachable_cache Map.empty" by (rule cache_init)
  from engagement_and_brand_at_least_base [of "''I love you!''"
         "\<lparr>persona_id = ''p1'', tone = Some ''professional'', target_audience = None, key_themes = Some [''tour'']\<rparr>" "1 / 2" Map.empty] b r
  show ?thesis by blast
qed

text \<open>
  Claim C5. \<open>scoreContentQuality\<close> should return the same metrics for the same text and the
  same persona whatever was scored before. The cache key holds the text and the persona's
  identifier only, so after a persona is updated in place (same identifier, new tone and
  themes) the entry computed for the old persona is served for the new one: the same call
  on a fresh cache returns different metrics. (\<open>generateContent\<close> keys its cache on the
  whole request, persona included.)
\<close>

theorem score_depends_on_cache_state:
  "fst (scoreContentQuality
          (snd (scoreContentQuality Map.empty ''I love you!''
                  \<lparr>persona_id = ''p1'', tone = Some ''casual'', target_audience = None, key_themes = Some [''love'']\<rparr>))
          ''I love you!''
          \<lparr>persona_id = ''p1'', tone = Some ''professional'', target_audience = None, key_themes = Some [''tour'']\<rparr>)
     = fst (scoreContentQuality Map.empty ''I love you!''
              \<lparr>persona_id = ''p1'', tone = Some ''casual'', target_audience = None, key_themes = Some [''love'']\<rparr>) \<and>
   brand_consistency
     (fst (scoreContentQuality
             (snd (scoreContentQuality Map.empty ''I love you!''
                     \<lparr>persona_id = ''p1'', tone = Some ''casual'', target_audience = None, key_themes = Some [''love'']\<rparr>))
             ''I love you!''
             \<lparr>persona_id = ''p1'', tone = Some ''professional'', target_audience = None, key_themes = Some [''tour'']\<rparr>)) = 85 / 100 \<and>
   brand_consistency
     (fst (scoreContentQuality Map.empty ''I love you!''
             \<lparr>persona_id = ''p1'', tone = Some ''professional'', target_audience = None, key_themes = Some [''tour'']\<rparr>)) = 1 / 2"
  by code_simp

section \<open>Properties of template processing\<close>

lemma map_of_set_property: "map_of (set_property k v ps) = (map_of ps)(k \<mapsto> v)"
  by (induction ps) (auto simp: fun_eq_iff)

lemma map_of_apply_default:
  "map_of (apply_default pv tv) n =
     (case default_value tv of
        Some d \<Rightarrow> (if n = v_name tv \<and> js_not (map_of pv n) then Some d else map_of pv n)
      | None \<Rightarrow> map_of pv n)"
  by (auto simp: apply_default_def map_of_set_property split: option.splits)

lemma defaults_leave_other_names:
  "\<forall>tv \<in> set tvs. v_name tv \<noteq> n \<Longrightarrow> map_of (foldl apply_default pv tvs) n = map_of pv n"
proof (induction tvs arbitrary: pv)
  case Nil
  show ?case by simp
next
  case (Cons t ts)
  then have "map_of (foldl apply_default (apply_default pv t) ts) n = map_of (apply_default pv t) n"
    by simp
  also from Cons.prems have "\<dots> = map_of pv n"
    by (auto simp: map_of_apply_default split: option.splits)
  finally show ?case by simp
qed

lemma defaults_keep_or_replace:
  "map_of pv n = Some x \<Longrightarrow>
   map_of (foldl apply_default pv tvs) n = Some x \<or>
   (\<exists>tv' \<in> set tvs. v_name tv' = n \<and>
       (\<exists>d'. default_value tv' = Some d' \<and> map_of (foldl apply_default pv tvs) n = Some d'))"
proof (induction tvs arbitrary: pv x)
  case Nil
  then show ?case by simp
next
  case (Cons t ts)
  show ?case
  proof (cases "map_of (apply_default pv t) n = Some x")
    case True
    from Cons.IH [OF True] show ?thesis by auto
  next
    case False
    with Cons.prems obtain d0 where t: "v_name t = n" "default_value t = Some d0"
      and pv': "map_of (apply_default pv t) n = Some d0"
      by (auto simp: map_of_apply_default split: option.splits if_splits)
    from Cons.IH [OF pv'] t show ?thesis by auto
  qed
qed

lemma defaults_fill_missing:
  assumes "js_not (map_of pv n)" "tv \<in> set tvs" "v_name tv = n" "default_value tv = Some d"
  shows "\<exists>tv' \<in> set tvs. v_name tv' = n \<and>
           (\<exists>d'. default_value tv' = Some d' \<and> map_of (foldl apply_default pv tvs) n = Some d')"
  using assms
proof (induction tvs arbitrary: pv)
  case Nil
  then show ?case by simp
next
  case (Cons t ts)
  show ?case
  proof (cases "v_name t = n \<and> default_value t \<noteq> None")
    case True
    then obtain d0 where t: "v_name t = n" "default_value t = Some d0" by auto
    with Cons.prems(1) have pv': "map_of (apply_default pv t) n = Some d0"
      by (simp add: map_of_apply_default)
    from defaults_keep_or_replace [OF pv', of ts] t show ?thesis by auto
  next
    case False
    then have same: "map_of (apply_default pv t) n = map_of pv n"
      by (auto simp: map_of_apply_default split: option.splits)
    from False Cons.prems have "tv \<in> set ts" by auto
    with Cons.IH [of "apply_default pv t"] same Cons.prems
    show ?thesis by auto
  qed
qed

lemma defaults_fill_missing_distinct:
  assumes "distinct (map v_name tvs)" "js_not (map_of pv (v_name tv))" "tv \<in> set tvs"
    "default_value tv = Some d"
  shows "map_of (foldl apply_default pv tvs) (v_name tv) = Some d"
  using assms
proof (induction tvs arbitrary: pv)
  case Nil
  then show ?case by simp
next
  case (Cons t ts)
  show ?case
  proof (cases "t = tv")
    case True
    with Cons.prems have pv': "map_of (apply_default pv t) (v_name tv) = Some d"
      by (simp add: map_of_apply_default)
    from Cons.prems(1) True have "v_name tv \<notin> set (map v_name ts)" by simp
    then have "\<forall>tv' \<in> set ts. v_name tv' \<noteq> v_name tv" by (metis image_eqI set_map)
    from defaults_leave_other_names [OF this] pv' show ?thesis by simp
  next
    case False
    with Cons.prems have in_ts: "tv \<in> set ts" by auto
    with Cons.prems(1) have "v_name t \<noteq> v_name tv" by auto
    then have same: "map_of (apply_default pv t) (v_name tv) = map_of pv (v_name tv)"
      by (auto simp: map_of_apply_default split: option.splits)
    from Cons.prems(1) have "distinct (map v_name ts)" by simp
    from Cons.IH [OF this _ in_ts Cons.prems(4), of "apply_default pv t"] same Cons.prems(2)
    show ?thesis by simp
  qed
qed

lemma missingRequired_iff:
  "n \<in> set (missingRequired tvs vars) \<longleftrightarrow>
     (\<exists>tv \<in> set tvs. v_name tv = n \<and> required tv \<and> js_not (map_of vars n))"
  by (auto simp: missingRequired_def)

lemma processTemplate_missing:
  assumes "getTemplateById tid = Some tpl"
    and "missingRequired (declared_variables tpl) vars \<noteq> []"
  shows "processTemplate getTemplateById tid vars =
           Inl (MissingRequiredVariables (missingRequired (declared_variables tpl) vars))"
  using assms by (simp add: processTemplate_def Let_def)

lemma processTemplate_success:
  assumes "processTemplate getTemplateById tid vars = Inr result"
    and "getTemplateById tid = Some tpl"
  shows "variables_used result = foldl apply_default vars (declared_variables tpl) \<and>
         processed_content result =
           clean_up (remove_unreplaced (substitute (template_content tpl) (variables_used result)))"
  using assms by (auto simp: processTemplate_def Let_def split: if_splits)



text \<open>
  Claim C10. A required variable whose supplied value is falsy (the empty string, \<open>false\<close>,
  0 or \<open>null\<close>) counts as missing: \<open>processTemplate\<close> fails with the missing-variables
  error, which names it. An optional variable whose supplied value is falsy and that has a
  declared default gets a declared default of that name in place of the supplied value (the
  declared default itself when the declared names are distinct).
\<close>

theorem falsy_values_count_as_missing:
  assumes "getTemplateById tid = Some tpl"
    and "tv \<in> set (declared_variables tpl)"
    and "map_of vars (v_name tv) = Some x" and "falsy x"
  shows "falsy (JString []) \<and> falsy (JBool False) \<and> falsy (JNumber 0) \<and> falsy JNull \<and>
         (required tv \<longrightarrow>
            processTemplate getTemplateById tid vars =
              Inl (MissingRequiredVariables (missingRequired (declared_variables tpl) vars)) \<and>
            v_name tv \<in> set (missingRequired (declared_variables tpl) vars)) \<and>
         (\<not> required tv \<longrightarrow> processTemplate getTemplateById tid vars = Inr result \<longrightarrow>
          default_value tv = Some d \<longrightarrow>
            (\<exists>tv' \<in> set (declared_variables tpl). v_name tv' = v_name tv \<and>
               (\<exists>d'. default_value tv' = Some d' \<and>
                     map_of (variables_used result) (v_name tv) = Some d')) \<and>
            (distinct (map v_name (declared_variables tpl)) \<longrightarrow>
               map_of (variables_used result) (v_name tv) = Some d))"
proof -
  from assms(3,4) have missing: "js_not (map_of vars (v_name tv))" by simp
  have req: "required tv \<longrightarrow>
            processTemplate getTemplateById tid vars =
              Inl (MissingRequiredVariables (missingRequired (declared_variables tpl) vars)) \<and>
            v_name tv \<in> set (missingRequired (declared_variables tpl) vars)"
  proof
    assume "required tv"
    with assms(2) missing
    have listed: "v_name tv \<in> set (missingRequired (declared_variables tpl) vars)"
      by (auto simp: missingRequired_iff)
    then have "missingRequired (declared_variables tpl) vars \<noteq> []" by auto
    with assms(1) processTemplate_missing [of getTemplateById tid tpl vars] listed
    show "processTemplate getTemplateById tid vars =
              Inl (MissingRequiredVariables (missingRequired (declared_variables tpl) vars)) \<and>
            v_name tv \<in> set (missingRequired (declared_variables tpl) vars)"
      by simp
  qed
  have opt: "\<not> required tv \<longrightarrow> processTemplate getTemplateById tid vars = Inr result \<longrightarrow>
          default_value tv = Some d \<longrightarrow>
            (\<exists>tv' \<in> set (declared_variables tpl). v_name tv' = v_name tv \<and>
               (\<exists>d'. default_value tv' = Some d' \<and>
                     map_of (variables_used result) (v_name tv) = Some d')) \<and>
            (distinct (map v_name (declared_variables tpl)) \<longrightarrow>
               map_of (variables_used result) (v_name tv) = Some d)"
  proof (intro impI)
    assume ok: "processTemplate getTemplateById tid vars = Inr result"
      and d: "default_value tv = Some d"
    from ok assms(1) processTemplate_success [of getTemplateById tid vars result tpl]
    have used: "variables_used result = foldl apply_default vars (declared_variables tpl)"
      by simp
    from defaults_fill_missing [OF missing assms(2) refl d] used
    have some: "\<exists>tv' \<in> set (declared_variables tpl). v_name tv' = v_name tv \<and>
               (\<exists>d'. default_value tv' = Some d' \<and>
                     map_of (variables_used result) (v_name tv) = Some d')"
      by simp
    have "distinct (map v_name (declared_variables tpl)) \<longrightarrow>
               map_of (variables_used result) (v_name tv) = Some d"
      using defaults_fill_missing_distinct [OF _ missing assms(2) d] used by simp
    with some
    show "(\<exists>tv' \<in> set (declared_variables tpl). v_name tv' = v_name tv \<and>
               (\<exists>d'. default_value tv' = Some d' \<and>
                     map_of (variables_used result) (v_name tv) = Some d')) \<and>
            (distinct (map v_name (declared_variables tpl)) \<longrightarrow>
               map_of (variables_used result) (v_name tv) = Some d)"
      by blast
  qed
  from req opt show ?thesis by simp
qed

theorem falsy_values_count_as_missing_witness:
  "example_rows ''t1'' = Some behind_the_scenes \<and>
   falsy (JString []) \<and> falsy (JNumber 0) \<and>
   processTemplate example_rows ''t1''
     [(''story_hook'', JString []), (''main_content'', JString ''We recorded two songs.'')] =
     Inl (MissingRequiredVariables [''story_hook'']) \<and>
   processTemplate example_rows ''t1''
     [(''story_hook'', JString ''Studio day''), (''genre'', JNumber 0),
      (''main_content'', JString ''We recorded two songs.'')] =
     Inr \<lparr>template_id = ''t1'',
          processed_content = ''Behind the scenes: Studio day We recorded two songs. What's your favorite part of the creative process? #BehindTheScenes #Music #CreativeProcess'',
          variables_used = [(''story_hook'', JString ''Studio day''), (''genre'', JString ''Music''),
                            (''main_content'', JString ''We recorded two songs.'')]\<rparr> \<and>
   map_of (variables_used
     \<lparr>template_id = ''t1'',
      processed_content = ''Behind the scenes: Studio day We recorded two songs. What's your favorite part of the creative process? #BehindTheScenes #Music #CreativeProcess'',
      variables_used = [(''story_hook'', JString ''Studio day''), (''genre'', JString ''Music''),
                        (''main_content'', JString ''We recorded two songs.'')]\<rparr>) ''genre'' =
     Some (JString ''Music'')"
proof -
  let ?hook = "\<lparr>v_name = ''story_hook'', v_type = ''text'', required = True, default_value = None,
           options = None, description = Some ''Opening line to grab attention''\<rparr>"
  let ?genre = "\<lparr>v_name = ''genre'', v_type = ''text'', required = False,
           default_value = Some (JString ''Music''), options = None, description = None\<rparr>"
  let ?vars1 = "[(''story_hook'', JString []), (''main_content'', JString ''We recorded two songs.'')]"
  let ?vars2 = "[(''story_hook'', JString ''Studio day''), (''genre'', JNumber 0),
      (''main_content'', JString ''We recorded two songs.'')]"
  let ?result = "\<lparr>template_id = ''t1'',
          processed_content = ''Behind the scenes: Studio day We recorded two songs. What's your favorite part of the creative process? #BehindTheScenes #Music #CreativeProcess'',
          variables_used = [(''story_hook'', JString ''Studio day''), (''genre'', JString ''Music''),
                            (''main_content'', JString ''We recorded two songs.'')]\<rparr>"
  have row: "example_rows ''t1'' = Some behind_the_scenes"
    by (simp add: example_rows_def)
  have hook: "?hook \<in> set (declared_variables behind_the_scenes)" "required ?hook"
    "map_of ?vars1 (v_name ?hook) = Some (JString [])" "falsy (JString [])"
    by (simp_all add: declared_variables_def behind_the_scenes_def)
  have genre: "?genre \<in> set (declared_variables behind_the_scenes)" "\<not> required ?genre"
    "map_of ?vars2 (v_name ?genre) = Some (JNumber 0)" "falsy (JNumber 0)"
    "default_value ?genre = Some (JString ''Music'')"
    by (simp_all add: declared_variables_def behind_the_scenes_def)
  have names: "distinct (map v_name (declared_variables behind_the_scenes))"
    by (simp add: declared_variables_def behind_the_scenes_def)
  have missing: "missingRequired (declared_variables behind_the_scenes) ?vars1 = [''story_hook'']"
    by (simp add: missingRequired_def declared_variables_def behind_the_scenes_def)
  have ok: "processTemplate example_rows ''t1'' ?vars2 = Inr ?result"
    by code_simp
  from falsy_values_count_as_missing
         [where getTemplateById = example_rows and tid = "''t1''"
            and tpl = behind_the_scenes and tv = ?hook and vars = ?vars1
            and x = "JString []"] row hook missing
  have first: "processTemplate example_rows ''t1'' ?vars1 =
                 Inl (MissingRequiredVariables [''story_hook''])"
    by simp
  from falsy_values_count_as_missing
         [where getTemplateById = example_rows and tid = "''t1''"
            and tpl = behind_the_scenes and tv = ?genre and vars = ?vars2
            and x = "JNumber 0" and result = ?result and d = "JString ''Music''"]
       row genre names ok
  have second: "map_of (variables_used ?result) ''genre'' = Some (JString ''Music'')"
    by simp
  from row first ok second show ?thesis by simp
qed

lemma collapse_whitespace_spaces:
  "c \<in> set (collapse_whitespace s) \<Longrightarrow> is_space c \<Longrightarrow> c = CHR '' ''"
proof (induction s rule: collapse_whitespace.induct)
  case 1
  then show ?case by simp
next
  case (2 c cs)
  then show ?case by (auto split: if_splits)
qed

lemma newline_is_space: "is_space (CHR 0x0A)"
  by (simp add: is_space_def)

lemma paragraph_breaks_without_newline: "CHR 0x0A \<notin> set s \<Longrightarrow> paragraph_breaks s = s"
  by (induction s) auto

lemma set_trim: "set (trim s) \<subseteq> set s"
proof -
  have "set (dropWhile is_space (rev (dropWhile is_space s))) \<subseteq> set (rev (dropWhile is_space s))"
    by (meson set_dropWhileD subsetI)
  also have "\<dots> \<subseteq> set s"
    using set_dropWhileD by fastforce
  finally show ?thesis by (simp add: trim_def)
qed

lemma clean_up_no_newline: "CHR 0x0A \<notin> set (clean_up str)"
proof -
  have no_nl: "CHR 0x0A \<notin> set (collapse_whitespace str)"
    using collapse_whitespace_spaces [of "CHR 0x0A" str] newline_is_space by auto
  then have "paragraph_breaks (collapse_whitespace str) = collapse_whitespace str"
    by (rule paragraph_breaks_without_newline)
  with no_nl set_trim [of "collapse_whitespace str"] show ?thesis
    by (auto simp: clean_up_def)
qed

text \<open>
  Claim C3. The output of \<open>processTemplate\<close> should keep paragraph breaks as one blank line.
  The code collapses every run of whitespace, newlines included, to one space before it looks
  for paragraph breaks, so the second replacement never matches and the output never holds
  a newline. For the default template 'Behind the Scenes', whose body has four blank lines
  between its paragraphs, the processed text is a single line.
\<close>

theorem paragraph_breaks_are_lost:
  "processTemplate example_rows ''t1''
     [(''story_hook'', JString ''Studio day''), (''main_content'', JString ''We recorded two songs.'')] =
     Inr \<lparr>template_id = ''t1'',
        processed_content = ''Behind the scenes: Studio day We recorded two songs. What's your favorite part of the creative process? #BehindTheScenes #Music #CreativeProcess'',
        variables_used = [(''story_hook'', JString ''Studio day''),
                          (''main_content'', JString ''We recorded two songs.''),
                          (''genre'', JString ''Music'')]\<rparr> \<and>
   CHR 0x0A \<in> set (template_content behind_the_scenes) \<and>
   CHR 0x0A \<notin> set (processed_content
     \<lparr>template_id = ''t1'',
        processed_content = ''Behind the scenes: Studio day We recorded two songs. What's your favorite part of the creative process? #BehindTheScenes #Music #CreativeProcess'',
        variables_used = [(''story_hook'', JString ''Studio day''),
                          (''main_content'', JString ''We recorded two songs.''),
                          (''genre'', JString ''Music'')]\<rparr>)"
  by code_simp

section \<open>Properties of template validation\<close>







section \<open>Properties of content generation\<close>

lemma upt_0_Suc: "[0 ..< Suc n] = 0 # map Suc [0 ..< n]"
  by (simp add: upt_conv_Cons map_Suc_upt del: upt_Suc)

lemma generate_loop_all_ok:
  assumes "\<forall>k<n. limiter_admits w (limiter_calls st + k)"
    and "\<forall>k<n. backend_replies w (backend_calls st + k) \<noteq> BackendError"
  shows "\<exists>rs st'. generate_loop w params i n st acc = (Inr (acc @ rs), st') \<and>
           limiter_calls st' = limiter_calls st + n \<and>
           backend_calls st' = backend_calls st + n \<and>
           content_cache st' = content_cache st \<and>
           map content rs =
             filter (\<lambda>t. t \<noteq> []) (map (\<lambda>k. nth_text w (backend_calls st + k)) [0 ..< n]) \<and>
           map variation_id rs =
             map (\<lambda>k. i + k + 1) (filter (\<lambda>k. nth_text w (backend_calls st + k) \<noteq> []) [0 ..< n])"
  using assms
proof (induction n arbitrary: i st acc)
  case 0
  then show ?case by simp
next
  case (Suc n)
  from Suc.prems(1) have admit: "limiter_admits w (limiter_calls st)" by force
  from Suc.prems(2) have "backend_replies w (backend_calls st) \<noteq> BackendError" by force
  then obtain g where g: "backend_replies w (backend_calls st) = Generated g"
    by (cases "backend_replies w (backend_calls st)") auto
  let ?st2 = "st\<lparr>limiter_calls := limiter_calls st + 1, backend_calls := backend_calls st + 1\<rparr>"
  have call: "withRateLimit w (textGeneration w) st = (Inr (reply_text g), ?st2)"
    using admit g by (simp add: withRateLimit_def textGeneration_def Let_def)
  have seen: "nth_text w (backend_calls st) = reply_text g"
    using g by (simp add: nth_text_def)
  show ?case
  proof (cases "reply_text g = []")
    case True
    have a: "\<forall>k<n. limiter_admits w (limiter_calls ?st2 + k)"
      using Suc.prems(1) by (auto dest: spec [where x = "Suc _"])
    have b: "\<forall>k<n. backend_replies w (backend_calls ?st2 + k) \<noteq> BackendError"
      using Suc.prems(2) by (auto dest: spec [where x = "Suc _"])
    from Suc.IH [OF a b, of "i + 1" acc] obtain rs st' where
      ih: "generate_loop w params (i + 1) n ?st2 acc = (Inr (acc @ rs), st')"
        "limiter_calls st' = limiter_calls ?st2 + n"
        "backend_calls st' = backend_calls ?st2 + n"
        "content_cache st' = content_cache ?st2"
        "map content rs =
           filter (\<lambda>t. t \<noteq> []) (map (\<lambda>k. nth_text w (backend_calls ?st2 + k)) [0 ..< n])"
        "map variation_id rs =
           map (\<lambda>k. (i + 1) + k + 1)
             (filter (\<lambda>k. nth_text w (backend_calls ?st2 + k) \<noteq> []) [0 ..< n])"
      by blast
    have "generate_loop w params i (Suc n) st acc = (Inr (acc @ rs), st')"
      using call True ih(1) by simp
    moreover have "map content rs =
             filter (\<lambda>t. t \<noteq> []) (map (\<lambda>k. nth_text w (backend_calls st + k)) [0 ..< Suc n])"
      using ih(5) True seen by (simp add: upt_0_Suc comp_def del: upt_Suc)
    moreover have "map variation_id rs =
             map (\<lambda>k. i + k + 1)
               (filter (\<lambda>k. nth_text w (backend_calls st + k) \<noteq> []) [0 ..< Suc n])"
      using ih(6) True seen by (simp add: upt_0_Suc filter_map comp_def del: upt_Suc)
    ultimately show ?thesis using ih(2,3,4) by auto
  next
    case False
    obtain q qc where q: "scoreContentQuality (quality_cache ?st2) (reply_text g) (persona params) = (q, qc)"
      by (cases "scoreContentQuality (quality_cache ?st2) (reply_text g) (persona params)") auto
    let ?st3 = "?st2\<lparr>quality_cache := qc\<rparr>"
    let ?r = "\<lparr>content = reply_text g, quality_score = score q, variation_id = i + 1,
               generation_params = \<lparr>temperature = 0.7 + real i * 0.1,
                 used_max_length = used_length params,
                 used_content_type = content_type params\<rparr>,
               model_used = ''huggingface''\<rparr>"
    have a: "\<forall>k<n. limiter_admits w (limiter_calls ?st3 + k)"
      using Suc.prems(1) by (auto dest: spec [where x = "Suc _"])
    have b: "\<forall>k<n. backend_replies w (backend_calls ?st3 + k) \<noteq> BackendError"
      using Suc.prems(2) by (auto dest: spec [where x = "Suc _"])
    from Suc.IH [OF a b, of "i + 1" "acc @ [?r]"] obtain rs st' where
      ih: "generate_loop w params (i + 1) n ?st3 (acc @ [?r]) = (Inr ((acc @ [?r]) @ rs), st')"
        "limiter_calls st' = limiter_calls ?st3 + n"
        "backend_calls st' = backend_calls ?st3 + n"
        "content_cache st' = content_cache ?st3"
        "map content rs =
           filter (\<lambda>t. t \<noteq> []) (map (\<lambda>k. nth_text w (backend_calls ?st3 + k)) [0 ..< n])"
        "map variation_id rs =
           map (\<lambda>k. (i + 1) + k + 1)
             (filter (\<lambda>k. nth_text w (backend_calls ?st3 + k) \<noteq> []) [0 ..< n])"
      by blast
    have "generate_loop w params i (Suc n) st acc = (Inr (acc @ (?r # rs)), st')"
      using call False ih(1) q by simp
    moreover have "map content (?r # rs) =
             filter (\<lambda>t. t \<noteq> []) (map (\<lambda>k. nth_text w (backend_calls st + k)) [0 ..< Suc n])"
      using ih(5) False seen by (simp add: upt_0_Suc comp_def del: upt_Suc)
    moreover have "map variation_id (?r # rs) =
             map (\<lambda>k. i + k + 1)
               (filter (\<lambda>k. nth_text w (backend_calls st + k) \<noteq> []) [0 ..< Suc n])"
      using ih(6) False seen by (simp add: upt_0_Suc filter_map comp_def del: upt_Suc)
    ultimately show ?thesis using ih(2,3,4) by auto
  qed
qed

lemma ranked_before_insort:
  assumes "sorted_wrt ranked_before ys" and "\<forall>y \<in> set ys. variation_id x < variation_id y"
  shows "sorted_wrt ranked_before (insort_key (\<lambda>r. - quality_score r) x ys)"
  using assms
proof (induction ys)
  case Nil
  then show ?case by simp
next
  case (Cons y ys)
  show ?case
  proof (cases "quality_score y \<le> quality_score x")
    case True
    have "\<forall>z \<in> set (y # ys). ranked_before x z"
    proof
      fix z assume z: "z \<in> set (y # ys)"
      then have "quality_score z \<le> quality_score y"
        using Cons.prems(1) by (auto simp: ranked_before_def)
      with True have "quality_score z \<le> quality_score x" by simp
      moreover from z Cons.prems(2) have "variation_id x < variation_id z" by auto
      ultimately show "ranked_before x z" by (auto simp: ranked_before_def)
    qed
    with True Cons.prems(1) show ?thesis by simp
  next
    case False
    then have yx: "ranked_before y x" by (simp add: ranked_before_def)
    from Cons.prems have "sorted_wrt ranked_before (insort_key (\<lambda>r. - quality_score r) x ys)"
      by (intro Cons.IH) auto
    moreover from Cons.prems(1) yx
    have "\<forall>z \<in> set (insort_key (\<lambda>r. - quality_score r) x ys). ranked_before y z"
      by (auto simp: set_insort_key)
    ultimately show ?thesis using False by simp
  qed
qed

lemma ranked_before_sort:
  assumes "sorted_wrt (\<lambda>a b. variation_id a < variation_id b) xs"
  shows "sorted_wrt ranked_before (sort_key (\<lambda>r. - quality_score r) xs)"
  using assms
proof (induction xs)
  case Nil
  then show ?case by simp
next
  case (Cons x xs)
  then have "sorted_wrt ranked_before (sort_key (\<lambda>r. - quality_score r) xs)" by simp
  moreover from Cons.prems
  have "\<forall>y \<in> set (sort_key (\<lambda>r. - quality_score r) xs). variation_id x < variation_id y"
    by simp
  ultimately show ?case by (simp add: ranked_before_insort)
qed

lemma ranked_before_descending:
  "sorted_wrt ranked_before rs \<Longrightarrow> sorted_wrt (\<lambda>a b. quality_score b \<le> quality_score a) rs"
  by (rule sorted_wrt_mono_rel [of rs ranked_before]) (auto simp: ranked_before_def)

lemma variation_ids_increasing:
  assumes "map variation_id rs = map (\<lambda>k. i + k + 1) (filter P [0 ..< n])"
  shows "sorted_wrt (\<lambda>a b. variation_id a < variation_id b) rs"
proof -
  have "sorted_wrt (<) (filter P [0 ..< n])"
    by (intro sorted_wrt_filter) simp
  then have "sorted_wrt (<) (map (\<lambda>k. i + k + 1) (filter P [0 ..< n]))"
    by (simp add: sorted_wrt_map)
  with assms have "sorted_wrt (<) (map variation_id rs)" by simp
  then show ?thesis by (simp add: sorted_wrt_map)
qed

lemma generateContent_all_ok:
  assumes "content_cache st params = None"
    and "\<forall>k<used_variations params. limiter_admits w (limiter_calls st + k)"
    and "\<forall>k<used_variations params. backend_replies w (backend_calls st + k) \<noteq> BackendError"
  shows "\<exists>gens st'. generateContent w params st =
             (Inr (sort_key (\<lambda>r. - quality_score r) gens), st') \<and>
           limiter_calls st' = limiter_calls st + used_variations params \<and>
           backend_calls st' = backend_calls st + used_variations params \<and>
           map content gens =
             filter (\<lambda>t. t \<noteq> [])
               (map (\<lambda>k. nth_text w (backend_calls st + k)) [0 ..< used_variations params]) \<and>
           map variation_id gens =
             map (\<lambda>k. k + 1)
               (filter (\<lambda>k. nth_text w (backend_calls st + k) \<noteq> []) [0 ..< used_variations params])"
proof -
  from generate_loop_all_ok [OF assms(2,3), of params 0 "[]"] obtain rs st' where
    loop: "generate_loop w params 0 (used_variations params) st [] = (Inr rs, st')"
      "limiter_calls st' = limiter_calls st + used_variations params"
      "backend_calls st' = backend_calls st + used_variations params"
      "map content rs =
         filter (\<lambda>t. t \<noteq> [])
           (map (\<lambda>k. nth_text w (backend_calls st + k)) [0 ..< used_variations params])"
      "map variation_id rs =
         map (\<lambda>k. 0 + k + 1)
           (filter (\<lambda>k. nth_text w (backend_calls st + k) \<noteq> []) [0 ..< used_variations params])"
    by auto
  from assms(1) loop(1)
  have "generateContent w params st =
          (Inr (sort_key (\<lambda>r. - quality_score r) rs),
           st'\<lparr>content_cache := (content_cache st')(params \<mapsto> sort_key (\<lambda>r. - quality_score r) rs)\<rparr>)"
    by (simp add: generateContent_def Let_def)
  with loop(2-5) show ?thesis by auto
qed

text \<open>
  Claim C2, as stated: a request for 3 variations in which the backend returns non-empty text
  for all 3 calls yields exactly 3 results. The loop trims each text and drops it when
  nothing is left, so a text of one space, which is not empty, gives no result: the request
  below makes its three backend calls, each answered with a non-empty text, and returns two
  results.
\<close>

theorem whitespace_text_is_dropped:
  "variations example_request = Some 3 \<and>
   backend_replies blank_reply_world 0 = Generated (Some ''Hello.'') \<and>
   backend_replies blank_reply_world 1 = Generated (Some '' '') \<and>
   backend_replies blank_reply_world 2 = Generated (Some ''New tour dates soon! #live'') \<and>
   backend_calls (snd (generateContent blank_reply_world example_request fresh_state)) = 3 \<and>
   fst (generateContent blank_reply_world example_request fresh_state) =
     Inr [\<lparr>content = ''New tour dates soon! #live'', quality_score = 163 / 200, variation_id = 3,
           generation_params = \<lparr>temperature = 9 / 10, used_max_length = 150,
                                 used_content_type = ''social_post''\<rparr>,
           model_used = ''huggingface''\<rparr>,
          \<lparr>content = ''Hello.'', quality_score = 22993 / 50000, variation_id = 1,
           generation_params = \<lparr>temperature = 7 / 10, used_max_length = 150,
                                 used_content_type = ''social_post''\<rparr>,
           model_used = ''huggingface''\<rparr>]"
  by code_simp

text \<open>
  Claim C2, amended: when a request asks for 3 variations, its result is not cached yet, the
  limiter admits the three calls and the backend returns for each of them a text that is
  not empty after trimming, \<open>generateContent\<close> returns exactly 3 results, in descending order
  of \<open>quality_score\<close>, and results with equal scores keep their generation order (ascending
  \<open>variation_id\<close>).
\<close>

theorem three_variations_sorted_by_score:
  assumes "content_cache st params = None" and "variations params = Some 3"
    and "\<forall>k<3. limiter_admits w (limiter_calls st + k)"
    and "\<forall>k<3. \<exists>t. backend_replies w (backend_calls st + k) = Generated (Some t) \<and> trim t \<noteq> []"
  shows "\<exists>rs st'. generateContent w params st = (Inr rs, st') \<and> length rs = 3 \<and>
           set (map variation_id rs) = {1, 2, 3} \<and>
           (\<forall>i j. i < j \<and> j < 3 \<longrightarrow>
              quality_score (rs ! j) \<le> quality_score (rs ! i) \<and>
              (quality_score (rs ! j) = quality_score (rs ! i) \<longrightarrow>
                 variation_id (rs ! i) < variation_id (rs ! j)))"
proof -
  from assms(2) have n: "used_variations params = 3" by (simp add: used_variations_def)
  from assms(4) have texts: "\<forall>k<3. nth_text w (backend_calls st + k) \<noteq> []"
    by (auto simp: nth_text_def reply_text_def)
  from assms(4) have replies: "\<forall>k<3. backend_replies w (backend_calls st + k) \<noteq> BackendError"
    by auto
  from generateContent_all_ok [of st params w] assms(1,3) replies n obtain gens st' where
    run: "generateContent w params st = (Inr (sort_key (\<lambda>r. - quality_score r) gens), st')"
      "map variation_id gens =
         map (\<lambda>k. k + 1) (filter (\<lambda>k. nth_text w (backend_calls st + k) \<noteq> []) [0 ..< 3])"
    by auto
  let ?rs = "sort_key (\<lambda>r. - quality_score r) gens"
  from texts have "filter (\<lambda>k. nth_text w (backend_calls st + k) \<noteq> []) [0 ..< 3] = [0 ..< 3]"
    by (intro filter_True) auto
  with run(2) have ids: "map variation_id gens = map (\<lambda>k. k + 1) [0 ..< 3]" by simp
  then have "length (map variation_id gens) = 3" by simp
  then have len: "length ?rs = 3" by simp
  have "set (map variation_id ?rs) = set (map variation_id gens)" by simp
  also have "\<dots> = {1, 2, 3}" unfolding ids by (auto simp: upt_rec)
  finally have idset: "set (map variation_id ?rs) = {1, 2, 3}" .
  from run(2) have "sorted_wrt (\<lambda>a b. variation_id a < variation_id b) gens"
    using variation_ids_increasing [of gens 0] by simp
  then have ranked: "sorted_wrt ranked_before ?rs" by (rule ranked_before_sort)
  have order: "\<forall>i j. i < j \<and> j < 3 \<longrightarrow>
              quality_score (?rs ! j) \<le> quality_score (?rs ! i) \<and>
              (quality_score (?rs ! j) = quality_score (?rs ! i) \<longrightarrow>
                 variation_id (?rs ! i) < variation_id (?rs ! j))"
  proof (intro allI impI)
    fix i j :: nat
    assume "i < j \<and> j < 3"
    with len have "i < j" "j < length ?rs" by simp_all
    with ranked have "ranked_before (?rs ! i) (?rs ! j)"
      by (simp add: sorted_wrt_iff_nth_less)
    then show "quality_score (?rs ! j) \<le> quality_score (?rs ! i) \<and>
              (quality_score (?rs ! j) = quality_score (?rs ! i) \<longrightarrow>
                 variation_id (?rs ! i) < variation_id (?rs ! j))"
      by (auto simp: ranked_before_def)
  qed
  from run(1) len idset order show ?thesis by blast
qed

theorem three_variations_sorted_by_score_witness:
  "content_cache fresh_state example_request = None \<and>
   variations example_request = Some 3 \<and>
   map (\<lambda>r. (variation_id r, quality_score r))
     (case fst (generateContent
        \<lparr>limiter_admits = (\<lambda>k. True),
         backend_replies = replies_of [Some ''Hello.'', Some ''Hello.'', Some ''New tour dates soon! #live'']\<rparr>
        example_request fresh_state) of Inr rs \<Rightarrow> rs | Inl e \<Rightarrow> []) =
     [(3, 163 / 200), (1, 22993 / 50000), (2, 22993 / 50000)] \<and>
   (\<exists>rs st'. generateContent
        \<lparr>limiter_admits = (\<lambda>k. True),
         backend_replies = replies_of [Some ''Hello.'', Some ''Hello.'', Some ''New tour dates soon! #live'']\<rparr>
        example_request fresh_state = (Inr rs, st') \<and> length rs = 3 \<and>
      set (map variation_id rs) = {1, 2, 3} \<and>
      (\<forall>i j. i < j \<and> j < 3 \<longrightarrow>
         quality_score (rs ! j) \<le> quality_score (rs ! i) \<and>
         (quality_score (rs ! j) = quality_score (rs ! i) \<longrightarrow>
            variation_id (rs ! i) < variation_id (rs ! j))))"
proof -
  let ?w = "\<lparr>limiter_admits = (\<lambda>k. True),
         backend_replies = replies_of [Some ''Hello.'', Some ''Hello.'', Some ''New tour dates soon! #live'']\<rparr>"
  have miss: "content_cache fresh_state example_request = None"
    by (simp add: fresh_state_def)
  have three: "variations example_request = Some 3"
    by (simp add: example_request_def)
  have admitted: "\<forall>k<3. limiter_admits ?w (limiter_calls fresh_state + k)"
    by simp
  have t0: "trim ''Hello.'' \<noteq> []" and t2: "trim ''New tour dates soon! #live'' \<noteq> []"
    by code_simp+
  have answered: "\<forall>k<3. \<exists>t. backend_replies ?w (backend_calls fresh_state + k) = Generated (Some t) \<and> trim t \<noteq> []"
  proof (intro allI impI)
    fix k :: nat
    assume "k < 3"
    then consider "k = 0" | "k = 1" | "k = 2" by linarith
    then show "\<exists>t. backend_replies ?w (backend_calls fresh_state + k) = Generated (Some t) \<and> trim t \<noteq> []"
      using t0 t2 by cases (simp_all add: replies_of_def fresh_state_def)
  qed
  have run: "map (\<lambda>r. (variation_id r, quality_score r))
     (case fst (generateContent ?w example_request fresh_state) of Inr rs \<Rightarrow> rs | Inl e \<Rightarrow> []) =
     [(3, 163 / 200), (1, 22993 / 50000), (2, 22993 / 50000)]"
    by code_simp
  from three_variations_sorted_by_score [OF miss three admitted answered] miss three run
  show ?thesis by blast
qed

text \<open>
  Claim C6. When the result of a request is not cached, the limiter admits its calls and the
  backend does not fail, \<open>generateContent\<close> makes exactly one backend call per variation (an
  empty text is not retried) and returns one result per text that is not empty, so the list is
  shorter by the number of empty texts. When every text is empty the list is empty, and the
  handler answers with status 200 and the message 'No content generated', not with an error.
\<close>

theorem empty_variations_are_dropped:
  assumes "content_cache st params = None"
    and "\<forall>k<used_variations params. limiter_admits w (limiter_calls st + k)"
    and "\<forall>k<used_variations params. backend_replies w (backend_calls st + k) \<noteq> BackendError"
  shows "\<exists>gens st'.
           generateContent w params st = (Inr (sort_key (\<lambda>r. - quality_score r) gens), st') \<and>
           map content gens =
             filter (\<lambda>t. t \<noteq> [])
               (map (\<lambda>k. nth_text w (backend_calls st + k)) [0 ..< used_variations params]) \<and>
           length (sort_key (\<lambda>r. - quality_score r) gens) =
             length (filter (\<lambda>k. nth_text w (backend_calls st + k) \<noteq> [])
                       [0 ..< used_variations params]) \<and>
           backend_calls st' = backend_calls st + used_variations params \<and>
           ((\<forall>k<used_variations params. nth_text w (backend_calls st + k) = []) \<longrightarrow>
              gens = [] \<and>
              fst (post_generate w params st) =
                \<lparr>response_status = 200, response_text = ''No content generated'',
                 generated_content = [], content_saved = Some False\<rparr>)"
proof -
  from generateContent_all_ok [OF assms] obtain gens st' where
    run: "generateContent w params st = (Inr (sort_key (\<lambda>r. - quality_score r) gens), st')"
      "backend_calls st' = backend_calls st + used_variations params"
      "map content gens =
         filter (\<lambda>t. t \<noteq> [])
           (map (\<lambda>k. nth_text w (backend_calls st + k)) [0 ..< used_variations params])"
      "map variation_id gens =
         map (\<lambda>k. k + 1)
           (filter (\<lambda>k. nth_text w (backend_calls st + k) \<noteq> []) [0 ..< used_variations params])"
    by blast
  from run(4) have "length (map variation_id gens) =
      length (filter (\<lambda>k. nth_text w (backend_calls st + k) \<noteq> []) [0 ..< used_variations params])"
    by simp
  then have len: "length (sort_key (\<lambda>r. - quality_score r) gens) =
      length (filter (\<lambda>k. nth_text w (backend_calls st + k) \<noteq> []) [0 ..< used_variations params])"
    by simp
  have none: "(\<forall>k<used_variations params. nth_text w (backend_calls st + k) = []) \<longrightarrow>
              gens = [] \<and>
              fst (post_generate w params st) =
                \<lparr>response_status = 200, response_text = ''No content generated'',
                 generated_content = [], content_saved = Some False\<rparr>"
  proof
    assume "\<forall>k<used_variations params. nth_text w (backend_calls st + k) = []"
    then have "filter (\<lambda>k. nth_text w (backend_calls st + k) \<noteq> []) [0 ..< used_variations params] = []"
      by (auto simp: filter_empty_conv)
    with run(4) have "gens = []" by simp
    with run(1) show "gens = [] \<and>
              fst (post_generate w params st) =
                \<lparr>response_status = 200, response_text = ''No content generated'',
                 generated_content = [], content_saved = Some False\<rparr>"
      by (simp add: post_generate_def)
  qed
  from run(1,2,3) len none show ?thesis by blast
qed

theorem empty_variations_are_dropped_witness:
  "content_cache fresh_state example_request = None \<and>
   used_variations example_request = 3 \<and>
   fst (generateContent
          \<lparr>limiter_admits = (\<lambda>k. True),
           backend_replies = replies_of [Some ''  '', None, Some ''New tour dates soon! #live'']\<rparr>
          example_request fresh_state) =
     Inr [\<lparr>content = ''New tour dates soon! #live'', quality_score = 163 / 200, variation_id = 3,
           generation_params = \<lparr>temperature = 9 / 10, used_max_length = 150,
                                 used_content_type = ''social_post''\<rparr>,
           model_used = ''huggingface''\<rparr>] \<and>
   (\<exists>gens st'.
      generateContent
          \<lparr>limiter_admits = (\<lambda>k. True),
           backend_replies = replies_of [Some ''  '', None, Some ''New tour dates soon! #live'']\<rparr>
          example_request fresh_state = (Inr (sort_key (\<lambda>r. - quality_score r) gens), st') \<and>
      length (sort_key (\<lambda>r. - quality_score r) gens) = 1 \<and>
      backend_calls st' = 3) \<and>
   fst (post_generate
          \<lparr>limiter_admits = (\<lambda>k. True), backend_replies = replies_of [Some ''  '', None, Some []]\<rparr>
          example_request fresh_state) =
     \<lparr>response_status = 200, response_text = ''No content generated'',
      generated_content = [], content_saved = Some False\<rparr>"
proof -
  let ?w = "\<lparr>limiter_admits = (\<lambda>k. True),
           backend_replies = replies_of [Some ''  '', None, Some ''New tour dates soon! #live'']\<rparr>"
  let ?quiet = "\<lparr>limiter_admits = (\<lambda>k. True), backend_replies = replies_of [Some ''  '', None, Some []]\<rparr>"
  have miss: "content_cache fresh_state example_request = None"
    by (simp add: fresh_state_def)
  have n: "used_variations example_request = 3"
    by (simp add: used_variations_def example_request_def)
  have calls: "backend_calls fresh_state = 0" by (simp add: fresh_state_def)
  have admitted: "\<forall>k<used_variations example_request. limiter_admits ?w (limiter_calls fresh_state + k)"
    "\<forall>k<used_variations example_request. limiter_admits ?quiet (limiter_calls fresh_state + k)"
    by simp_all
  have answered: "\<forall>k<used_variations example_request.
                    backend_replies ?w (backend_calls fresh_state + k) \<noteq> BackendError"
    "\<forall>k<used_variations example_request.
                    backend_replies ?quiet (backend_calls fresh_state + k) \<noteq> BackendError"
    by (simp_all add: replies_of_def)
  have "length (filter (\<lambda>k. nth_text ?w (0 + k) \<noteq> []) [0 ..< 3]) = 1"
    by code_simp
  then have kept: "length (filter (\<lambda>k. nth_text ?w (backend_calls fresh_state + k) \<noteq> [])
                        [0 ..< used_variations example_request]) = 1"
    by (simp only: n calls)
  have "\<forall>k \<in> set [0 ..< 3]. nth_text ?quiet (0 + k) = []"
    by code_simp
  then have all_empty: "\<forall>k<used_variations example_request.
                          nth_text ?quiet (backend_calls fresh_state + k) = []"
    unfolding n calls by simp
  have run: "fst (generateContent ?w example_request fresh_state) =
     Inr [\<lparr>content = ''New tour dates soon! #live'', quality_score = 163 / 200, variation_id = 3,
           generation_params = \<lparr>temperature = 9 / 10, used_max_length = 150,
                                 used_content_type = ''social_post''\<rparr>,
           model_used = ''huggingface''\<rparr>]"
    by code_simp
  from empty_variations_are_dropped [OF miss admitted(1) answered(1)] kept n calls
  have one: "\<exists>gens st'.
      generateContent ?w example_request fresh_state =
        (Inr (sort_key (\<lambda>r. - quality_score r) gens), st') \<and>
      length (sort_key (\<lambda>r. - quality_score r) gens) = 1 \<and>
      backend_calls st' = 3"
    by auto
  from empty_variations_are_dropped [OF miss admitted(2) answered(2)] all_empty
  have no_content: "fst (post_generate ?quiet example_request fresh_state) =
     \<lparr>response_status = 200, response_text = ''No content generated'',
      generated_content = [], content_saved = Some False\<rparr>"
    by blast
  from miss n run one no_content show ?thesis by blast
qed






end
